theory Spec2Isabelle
  imports Main
begin

section \<open>Chisel GUI Manager: the connection supervisor of \<^verbatim>\<open>chisel_gui_manager.py\<close>\<close>

text \<open>
  The program keeps a list of connection profiles in \<^verbatim>\<open>config.json\<close> and runs at
  most one \<^verbatim>\<open>chisel client\<close> child process for the profile the user connected.
  The embedding covers \<^verbatim>\<open>load_config\<close>, \<^verbatim>\<open>save_config\<close> and the methods of
  \<^verbatim>\<open>MainWindow\<close> that touch the process or the profile list. Widgets are reduced to
  what an observer can see of them: the enabled flags of the two buttons of each row and
  the text and style of the status label.

  Modelling decisions, each visible in the definitions below:
  \<^item> The operating system is the record \<open>world\<close>: the files, the table of child
    processes and a trace of the external calls the program made, in order.
  \<^item> A Python exception is the result \<open>Raises\<close>, carrying the state at the moment of
    the raise (a Qt slot that raises leaves the fields as they were mutated so far).
    \<^verbatim>\<open>Popen.wait()\<close> on a child that never exits is the result \<open>Blocks\<close>.
  \<^item> A \<open>char\<close> stands for the code point of the same number, so strings are over
    the code points below 256.
  \<^item> The text of a file is represented by what \<^verbatim>\<open>json.load\<close> makes of it.
  \<^item> \<^verbatim>\<open>open\<close> on the config file is taken to succeed (the file, when present, is
    readable and its directory writable); \<^verbatim>\<open>print\<close> to stdout is not recorded.
\<close>

subsection \<open>Values\<close>

type_synonym pid = nat
type_synonym path = string

datatype json =
    JNull
  | JBool bool
  | JInt int
  | JStr string
  | JList "json list"
  | JDict "(string \<times> json) list"

datatype py_error = IndexError | JSONDecodeError

datatype 'a result = Returns 'a | Raises py_error 'a | Blocks

text \<open>The state an operation leaves behind, if it comes back at all.\<close>

fun after :: "'a result \<Rightarrow> 'a option" where
  "after (Returns x) = Some x"
| "after (Raises e x) = Some x"
| "after Blocks = None"

text \<open>\<^verbatim>\<open>xs[i]\<close> of Python: a negative index counts from the end, out of range raises.\<close>

definition py_index :: "'a list \<Rightarrow> int \<Rightarrow> 'a option" where
  "py_index xs i =
     (if 0 \<le> i \<and> i < int (length xs) then Some (xs ! nat i)
      else if - int (length xs) \<le> i \<and> i < 0 then Some (xs ! nat (int (length xs) + i))
      else None)"

text \<open>\<^verbatim>\<open>xs.pop(n)\<close> for an index already checked to be in range.\<close>

definition list_pop :: "'a list \<Rightarrow> nat \<Rightarrow> 'a list" where
  "list_pop xs n = take n xs @ drop (Suc n) xs"

subsection \<open>\<^verbatim>\<open>str.split()\<close> without arguments\<close>

text \<open>
  The code points below 256 for which \<^verbatim>\<open>str.isspace\<close> holds: tab to carriage return,
  the four separators FS, GS, RS, US, the space, NEL and the no-break space.
\<close>

definition py_isspace :: "char \<Rightarrow> bool" where
  "py_isspace c =
     (let n = (of_char c :: nat)
      in (9 \<le> n \<and> n \<le> 13) \<or> (28 \<le> n \<and> n \<le> 32) \<or> n = 133 \<or> n = 160)"

text \<open>
  Skip the whitespace, take the run of other characters as one token, repeat. Quotes and
  backslashes are characters like any other.
\<close>

function py_split :: "string \<Rightarrow> string list" where
  "py_split s =
     (case dropWhile py_isspace s of
        [] \<Rightarrow> []
      | c # r \<Rightarrow>
          (c # takeWhile (\<lambda>x. \<not> py_isspace x) r)
            # py_split (dropWhile (\<lambda>x. \<not> py_isspace x) r))"
  by pat_completeness auto

lemma length_dropWhile_tail:
  "dropWhile P s = c # r \<Longrightarrow> length (dropWhile Q r) < length s"
proof -
  assume eq: "dropWhile P s = c # r"
  have "length (dropWhile Q r) \<le> length r"
    by (rule length_dropWhile_le)
  also have "length r < length (dropWhile P s)"
    by (simp add: eq)
  also have "length (dropWhile P s) \<le> length s"
    by (rule length_dropWhile_le)
  finally show ?thesis .
qed

termination py_split
  by (relation "measure length") (auto intro: length_dropWhile_tail)

declare py_split.simps [simp del]

subsection \<open>The profile and the configuration file\<close>

record connection =
  name :: string
  url :: string
  arguments :: string

definition to_dict :: "connection \<Rightarrow> json" where
  "to_dict c =
     JDict [(''name'', JStr (name c)), (''url'', JStr (url c)),
            (''arguments'', JStr (arguments c))]"

definition CONFIG_FILE :: path where
  "CONFIG_FILE = ''config.json''"

text \<open>
  What a file holds, by what \<^verbatim>\<open>json.load\<close> does with it: \<open>Json_text v\<close> is a
  document that decodes to \<open>v\<close>; an empty file and any other text are rejected.
\<close>

datatype file_text = Empty_text | Json_text json | Bad_text

fun json_load :: "file_text \<Rightarrow> py_error + json" where
  "json_load Empty_text = Inl JSONDecodeError"
| "json_load (Json_text v) = Inr v"
| "json_load Bad_text = Inl JSONDecodeError"

datatype event =
    Ev_popen "string list" "pid option"
  | Ev_terminate pid
  | Ev_wait pid
  | Ev_critical string string
  | Ev_open_w path
  | Ev_write path json
  | Ev_close path

text \<open>
  \<open>exit_code w p\<close> is what \<^verbatim>\<open>poll()\<close> returns for child \<open>p\<close>: \<open>None\<close> while it
  runs. \<open>sigterm_exit w p\<close> is how \<open>p\<close> reacts to SIGTERM: it exits with that code, or
  (\<open>None\<close>) ignores the signal and keeps running. \<open>popen_error\<close> is the exception
  \<^verbatim>\<open>Popen\<close> would raise now (no binary, no permission), if any.
\<close>

record world =
  disk :: "path \<rightharpoonup> file_text"
  popen_error :: "string option"
  next_pid :: pid
  exit_code :: "pid \<Rightarrow> int option"
  sigterm_exit :: "pid \<Rightarrow> int option"
  trace :: "event list"

definition default_config :: json where
  "default_config =
     JDict [(''connections'', JList []),
            (''settings'', JDict [(''startup'', JStr ''When logged in''),
                                  (''shutoff'', JStr ''On log off'')])]"

definition load_config :: "world \<Rightarrow> py_error + json" where
  "load_config w =
     (case disk w CONFIG_FILE of
        None \<Rightarrow> Inr default_config
      | Some t \<Rightarrow> json_load t)"

text \<open>
  \<^verbatim>\<open>with open(CONFIG_FILE, "w") as f: json.dump(config_data, f, indent=4)\<close> is three
  calls on the file itself: the open creates or truncates it, the dump writes the
  document, leaving the block closes it.
\<close>

definition fopen_w :: "path \<Rightarrow> world \<Rightarrow> world" where
  "fopen_w p w = w\<lparr>disk := (disk w)(p \<mapsto> Empty_text), trace := trace w @ [Ev_open_w p]\<rparr>"

definition json_dump :: "json \<Rightarrow> path \<Rightarrow> world \<Rightarrow> world" where
  "json_dump v p w = w\<lparr>disk := (disk w)(p \<mapsto> Json_text v), trace := trace w @ [Ev_write p v]\<rparr>"

definition fclose :: "path \<Rightarrow> world \<Rightarrow> world" where
  "fclose p w = w\<lparr>trace := trace w @ [Ev_close p]\<rparr>"

definition save_config :: "json \<Rightarrow> world \<Rightarrow> world" where
  "save_config config_data w =
     fclose CONFIG_FILE (json_dump config_data CONFIG_FILE (fopen_w CONFIG_FILE w))"

text \<open>
  The worlds that exist while \<open>save_config\<close> runs, in order: before the open, after
  it, after the dump, after the close. A reader running beside the program, or a crash,
  meets one of them.
\<close>

definition save_config_instants :: "json \<Rightarrow> world \<Rightarrow> world list" where
  "save_config_instants config_data w =
     (let w1 = fopen_w CONFIG_FILE w;
          w2 = json_dump config_data CONFIG_FILE w1;
          w3 = fclose CONFIG_FILE w2
      in [w, w1, w2, w3])"

subsection \<open>The child process\<close>

definition poll :: "world \<Rightarrow> pid \<Rightarrow> int option" where
  "poll w p = exit_code w p"

definition terminate :: "pid \<Rightarrow> world \<Rightarrow> world" where
  "terminate p w =
     (let ec = (if exit_code w p = None then (exit_code w)(p := sigterm_exit w p)
                else exit_code w)
      in w\<lparr>exit_code := ec, trace := trace w @ [Ev_terminate p]\<rparr>)"

text \<open>\<^verbatim>\<open>wait()\<close> returns once the child has exited; \<open>None\<close> is waiting forever.\<close>

definition wait :: "pid \<Rightarrow> world \<Rightarrow> world option" where
  "wait p w =
     (if exit_code w p = None then None
      else Some (w\<lparr>trace := trace w @ [Ev_wait p]\<rparr>))"

text \<open>\<^verbatim>\<open>subprocess.Popen(cmd, ...)\<close>: the exception's text, or the new child.\<close>

definition popen :: "string list \<Rightarrow> world \<Rightarrow> string + (pid \<times> world)" where
  "popen cmd w =
     (case popen_error w of
        Some msg \<Rightarrow> Inl msg
      | None \<Rightarrow>
          Inr (next_pid w,
               w\<lparr>next_pid := Suc (next_pid w),
                 exit_code := (exit_code w)(next_pid w := None),
                 trace := trace w @ [Ev_popen cmd (Some (next_pid w))]\<rparr>))"

subsection \<open>\<^verbatim>\<open>MainWindow\<close>\<close>

text \<open>
  \<open>connection_buttons\<close> holds, for each row, whether its Connect button and its
  Disconnect button are enabled.
\<close>

record main_window =
  config_data :: json
  connections :: "connection list"
  settings_data :: json
  active_process :: "pid option"
  active_connection_index :: "int option"
  connection_buttons :: "(bool \<times> bool) list"
  status_text :: string
  status_style :: string

text \<open>The body of the loop of \<^verbatim>\<open>update_buttons_state\<close> for row \<open>i\<close>.\<close>

definition button_row :: "int option \<Rightarrow> nat \<Rightarrow> bool \<times> bool" where
  "button_row active i =
     (case active of
        None \<Rightarrow> (True, False)
      | Some a \<Rightarrow> if int i = a then (False, True) else (True, False))"

fun buttons_loop :: "int option \<Rightarrow> nat \<Rightarrow> (bool \<times> bool) list \<Rightarrow> (bool \<times> bool) list" where
  "buttons_loop active i [] = []"
| "buttons_loop active i (b # bs) = button_row active i # buttons_loop active (Suc i) bs"

definition update_buttons_state :: "main_window \<Rightarrow> main_window" where
  "update_buttons_state s =
     s\<lparr>connection_buttons :=
         buttons_loop (active_connection_index s) 0 (connection_buttons s)\<rparr>"

definition render_connections :: "main_window \<Rightarrow> main_window" where
  "render_connections s =
     update_buttons_state
       (s\<lparr>connection_buttons := map (\<lambda>conn. (True, False)) (connections s)\<rparr>)"

definition save_all :: "world \<Rightarrow> main_window \<Rightarrow> world \<times> main_window" where
  "save_all w s =
     (let data = JDict [(''connections'', JList (map to_dict (connections s))),
                        (''settings'', settings_data s)]
      in (save_config data w, s\<lparr>config_data := data\<rparr>))"

definition delete_connection :: "int \<Rightarrow> world \<Rightarrow> main_window \<Rightarrow> world \<times> main_window" where
  "delete_connection index w s =
     (if 0 \<le> index \<and> index < int (length (connections s)) then
        (let s1 = s\<lparr>connections := list_pop (connections s) (nat index)\<rparr>;
             (w2, s2) = save_all w s1
         in (w2, render_connections s2))
      else (w, s))"

definition chisel_cmd :: "connection \<Rightarrow> string list" where
  "chisel_cmd conn = [''chisel'', ''client'', url conn] @ py_split (arguments conn)"

definition start_chisel :: "connection \<Rightarrow> world \<Rightarrow> main_window \<Rightarrow> world \<times> main_window" where
  "start_chisel conn w s =
     (let cmd = chisel_cmd conn
      in case popen cmd w of
           Inr (p, w1) \<Rightarrow> (w1, s\<lparr>active_process := Some p\<rparr>)
         | Inl msg \<Rightarrow>
             (w\<lparr>trace := trace w @ [Ev_popen cmd None,
                   Ev_critical ''Error'' (''Failed to start chisel:'' @ [CHR 0x0A] @ msg)]\<rparr>,
              s\<lparr>active_process := None, active_connection_index := None\<rparr>))"

definition stop_chisel_process :: "world \<Rightarrow> main_window \<Rightarrow> (world \<times> main_window) result" where
  "stop_chisel_process w s =
     (case active_process s of
        None \<Rightarrow> Returns (w, s\<lparr>active_process := None\<rparr>)
      | Some p \<Rightarrow>
          if poll w p = None then
            (case wait p (terminate p w) of
               None \<Rightarrow> Blocks
             | Some w1 \<Rightarrow> Returns (w1, s\<lparr>active_process := None\<rparr>))
          else Returns (w, s\<lparr>active_process := None\<rparr>))"

definition connect_connection :: "int \<Rightarrow> world \<Rightarrow> main_window \<Rightarrow> (world \<times> main_window) result" where
  "connect_connection index w s =
     (case (if active_connection_index s \<noteq> None \<and> active_connection_index s \<noteq> Some index
            then (case stop_chisel_process w s of
                    Returns (w1, s1) \<Rightarrow> Returns (w1, s1\<lparr>active_connection_index := None\<rparr>)
                  | r \<Rightarrow> r)
            else Returns (w, s)) of
        Returns (w1, s1) \<Rightarrow>
          if active_connection_index s1 \<noteq> Some index then
            (let s2 = s1\<lparr>active_connection_index := Some index\<rparr>
             in case py_index (connections s2) index of
                  None \<Rightarrow> Raises IndexError (w1, s2)
                | Some conn \<Rightarrow>
                    (let (w3, s3) = start_chisel conn w1 s2
                     in Returns (w3, update_buttons_state s3)))
          else Returns (w1, update_buttons_state s1)
      | r \<Rightarrow> r)"

definition disconnect_connection :: "int \<Rightarrow> world \<Rightarrow> main_window \<Rightarrow> (world \<times> main_window) result" where
  "disconnect_connection index w s =
     (if active_connection_index s = Some index then
        (case stop_chisel_process w s of
           Returns (w1, s1) \<Rightarrow>
             Returns (w1, update_buttons_state (s1\<lparr>active_connection_index := None\<rparr>))
         | r \<Rightarrow> r)
      else Returns (w, s))"

definition not_connected :: "main_window \<Rightarrow> main_window" where
  "not_connected s =
     s\<lparr>status_text := ''Not Connected'',
       status_style := ''color: red; font-size: 14px; font-weight: bold;''\<rparr>"

definition update_connection_status :: "world \<Rightarrow> main_window \<Rightarrow> (world \<times> main_window) result" where
  "update_connection_status w s =
     (case (active_connection_index s, active_process s) of
        (Some i, Some p) \<Rightarrow>
          if poll w p = None then
            (case py_index (connections s) i of
               None \<Rightarrow> Raises IndexError (w, s)
             | Some conn \<Rightarrow>
                 Returns (w, s\<lparr>status_text := ''Connected to '' @ name conn,
                               status_style := ''color: green; font-size: 14px; font-weight: bold;''\<rparr>))
          else
            (case stop_chisel_process w s of
               Returns (w1, s1) \<Rightarrow>
                 Returns (w1, not_connected
                                (update_buttons_state (s1\<lparr>active_connection_index := None\<rparr>)))
             | r \<Rightarrow> r)
      | _ \<Rightarrow> Returns (w, not_connected s))"

text \<open>
  The fields \<^verbatim>\<open>__init__\<close> sets, for the profiles and settings decoded from the
  loaded configuration, followed by its call of \<^verbatim>\<open>render_connections\<close>.
\<close>

definition init_window :: "json \<Rightarrow> connection list \<Rightarrow> json \<Rightarrow> main_window" where
  "init_window cfg conns settings =
     render_connections
       \<lparr>config_data = cfg, connections = conns, settings_data = settings,
        active_process = None, active_connection_index = None,
        connection_buttons = [],
        status_text = ''Not Connected'',
        status_style = ''color: red; font-size: 14px; font-weight: bold;''\<rparr>"

subsection \<open>Commands and reachable states\<close>

text \<open>
  What can happen to a running window: the user presses Connect or Disconnect on a row
  or deletes a profile, the timer ticks, and outside the program a child exits on its
  own or the conditions for spawning change.
\<close>

datatype command =
    Connect int
  | Disconnect int
  | Delete int
  | Tick
  | Child_exits pid int
  | Popen_raises "string option"

definition child_exits :: "pid \<Rightarrow> int \<Rightarrow> world \<Rightarrow> world" where
  "child_exits p rc w =
     (if exit_code w p = None then w\<lparr>exit_code := (exit_code w)(p := Some rc)\<rparr> else w)"

fun exec :: "command \<Rightarrow> world \<Rightarrow> main_window \<Rightarrow> (world \<times> main_window) result" where
  "exec (Connect i) w s = connect_connection i w s"
| "exec (Disconnect i) w s = disconnect_connection i w s"
| "exec (Delete i) w s = Returns (delete_connection i w s)"
| "exec Tick w s = update_connection_status w s"
| "exec (Child_exits p rc) w s = Returns (child_exits p rc w, s)"
| "exec (Popen_raises e) w s = Returns (w\<lparr>popen_error := e\<rparr>, s)"

text \<open>
  A Connect button exists for the rows of the profile list only; the other commands
  are accepted with any argument.
\<close>

fun offered :: "command \<Rightarrow> main_window \<Rightarrow> bool" where
  "offered (Connect i) s = (0 \<le> i \<and> i < int (length (connections s)))"
| "offered c s = True"

text \<open>At start the program has spawned no child; children are numbered as spawned.\<close>

definition initial_world :: "world \<Rightarrow> bool" where
  "initial_world w = (next_pid w = 0)"

inductive reachable :: "world \<Rightarrow> main_window \<Rightarrow> bool" where
  start: "initial_world w \<Longrightarrow> reachable w (init_window cfg conns settings)"
| step: "reachable w s \<Longrightarrow> offered c s \<Longrightarrow> after (exec c w s) = Some (w', s')
         \<Longrightarrow> reachable w' s'"

text \<open>
  Two properties of a window in its world. \<open>handle_inv\<close>: an index is active exactly
  when a handle is held, the handle is a child the program spawned, and a spawned child
  that still runs is the one held. \<open>buttons_inv\<close>: the button flags are what the loop
  of \<^verbatim>\<open>update_buttons_state\<close> computes from the active index, one row per profile.
\<close>

definition handle_inv :: "world \<Rightarrow> main_window \<Rightarrow> bool" where
  "handle_inv w s =
     ((active_connection_index s = None \<longleftrightarrow> active_process s = None)
      \<and> (\<forall>p. active_process s = Some p \<longrightarrow> p < next_pid w)
      \<and> (\<forall>p < next_pid w. exit_code w p = None \<longrightarrow> active_process s = Some p))"

definition buttons_inv :: "main_window \<Rightarrow> bool" where
  "buttons_inv s =
     (connection_buttons s =
        map (button_row (active_connection_index s)) [0 ..< length (connections s)])"

subsection \<open>Reading the trace\<close>

text \<open>The command lines handed to \<^verbatim>\<open>Popen\<close>, in order.\<close>

fun spawn_args :: "event list \<Rightarrow> string list list" where
  "spawn_args [] = []"
| "spawn_args (Ev_popen cmd r # es) = cmd # spawn_args es"
| "spawn_args (e # es) = spawn_args es"

subsection \<open>Sample data\<close>

definition home :: connection where
  "home = \<lparr>name = ''home'', url = ''wss://h.example:9000'', arguments = ''socks''\<rparr>"

definition office :: connection where
  "office = \<lparr>name = ''office'', url = ''https://o.example'',
              arguments = ''--auth '' @ [CHR 0x22] @ ''a b'' @ [CHR 0x22] @ '' 3000''\<rparr>"

definition boot_world :: world where
  "boot_world =
     \<lparr>disk = Map.empty, popen_error = None, next_pid = 0,
      exit_code = (\<lambda>p. None), sigterm_exit = (\<lambda>p. Some (- 15)), trace = []\<rparr>"

definition boot_window :: main_window where
  "boot_window = init_window default_config [home, office] (JDict [])"

text \<open>A config file that is there but is not JSON, and one that holds the defaults.\<close>

definition corrupt_world :: world where
  "corrupt_world = boot_world\<lparr>disk := [CONFIG_FILE \<mapsto> Bad_text]\<rparr>"

definition saved_world :: world where
  "saved_world = boot_world\<lparr>disk := [CONFIG_FILE \<mapsto> Json_text default_config]\<rparr>"

definition home_config :: json where
  "home_config = JDict [(''connections'', JList [to_dict home]), (''settings'', JDict [])]"

text \<open>The window after Connect was pressed on row 0 (\<open>home\<close>) of the fresh window.\<close>

definition home_run :: "world \<times> main_window" where
  "home_run = (case after (connect_connection 0 boot_world boot_window) of
                 Some x \<Rightarrow> x | None \<Rightarrow> (boot_world, boot_window))"

definition home_world :: world where
  "home_world = fst home_run"

definition home_window :: main_window where
  "home_window = snd home_run"

text \<open>
  Then Delete is pressed for row 0, the active profile, and once more for the row that
  has become row 0.
\<close>

definition home_deleted :: "world \<times> main_window" where
  "home_deleted = delete_connection 0 home_world home_window"

definition all_deleted :: "world \<times> main_window" where
  "all_deleted = delete_connection 0 (fst home_deleted) (snd home_deleted)"

text \<open>
  The same start in a world whose children ignore SIGTERM; and the fresh window after
  Connect on row 1 (\<open>office\<close>) followed by Delete for row 0.
\<close>

definition deaf_world :: world where
  "deaf_world = boot_world\<lparr>sigterm_exit := (\<lambda>p. None)\<rparr>"

definition deaf_run :: "world \<times> main_window" where
  "deaf_run = (case after (connect_connection 0 deaf_world boot_window) of
                 Some x \<Rightarrow> x | None \<Rightarrow> (deaf_world, boot_window))"

definition office_run :: "world \<times> main_window" where
  "office_run = (case after (connect_connection 1 boot_world boot_window) of
                   Some x \<Rightarrow> x | None \<Rightarrow> (boot_world, boot_window))"

definition office_moved :: "world \<times> main_window" where
  "office_moved = delete_connection 0 (fst office_run) (snd office_run)"

section \<open>Properties\<close>

subsection \<open>Evaluation\<close>

lemma py_split_Nil:
  assumes "dropWhile py_isspace s = []"
  shows "py_split s = []"
  by (subst py_split.simps) (simp only: assms list.case)

lemma py_split_Cons:
  assumes "dropWhile py_isspace s = c # r"
  shows "py_split s =
     (c # takeWhile (\<lambda>x. \<not> py_isspace x) r)
       # py_split (dropWhile (\<lambda>x. \<not> py_isspace x) r)"
  by (subst py_split.simps) (simp only: assms list.case)

lemmas split_eval = py_split_Nil py_split_Cons py_isspace_def

lemmas sample_defs = home_run_def home_world_def home_window_def boot_world_def boot_window_def
  init_window_def home_def office_def

lemmas op_defs = connect_connection_def disconnect_connection_def update_connection_status_def
  stop_chisel_process_def start_chisel_def delete_connection_def save_all_def save_config_def
  render_connections_def update_buttons_state_def chisel_cmd_def popen_def poll_def wait_def
  terminate_def fopen_w_def json_dump_def fclose_def not_connected_def py_index_def list_pop_def
  button_row_def child_exits_def

lemma home_run_fields:
  "active_connection_index home_window = Some 0"
  "active_process home_window = Some 0"
  "map name (connections home_window) = [''home'', ''office'']"
  "connection_buttons home_window = [(False, True), (True, False)]"
  "exit_code home_world 0 = None"
  "sigterm_exit home_world 0 = Some (- 15)"
  "next_pid home_world = 1"
  "popen_error home_world = None"
  "trace home_world =
     [Ev_popen [''chisel'', ''client'', ''wss://h.example:9000'', ''socks''] (Some 0)]"
  by (simp_all add: sample_defs op_defs split_eval)

subsection \<open>The button loop\<close>

lemma buttons_loop_map:
  "buttons_loop a i bs = map (\<lambda>k. button_row a (i + k)) [0 ..< length bs]"
proof (induction bs arbitrary: i)
  case Nil
  show ?case by simp
next
  case (Cons b bs)
  show ?case
    by (simp add: Cons.IH map_upt_Suc del: upt_Suc)
qed

lemma connection_buttons_update:
  "connection_buttons (update_buttons_state s) =
   map (button_row (active_connection_index s)) [0 ..< length (connection_buttons s)]"
  by (simp add: update_buttons_state_def buttons_loop_map)

lemma update_buttons_state_fields:
  "active_process (update_buttons_state s) = active_process s"
  "active_connection_index (update_buttons_state s) = active_connection_index s"
  "connections (update_buttons_state s) = connections s"
  "status_text (update_buttons_state s) = status_text s"
  by (simp_all add: update_buttons_state_def)

subsection \<open>Stopping a child that has already exited\<close>

lemma stop_exited:
  "active_process s = Some p \<Longrightarrow> exit_code w p = Some rc \<Longrightarrow>
   stop_chisel_process w s = Returns (w, s\<lparr>active_process := None\<rparr>)"
  by (simp add: stop_chisel_process_def poll_def)

subsection \<open>Tokens of \<open>py_split\<close>\<close>

lemma spawn_args_append: "spawn_args (xs @ ys) = spawn_args xs @ spawn_args ys"
  by (induction xs rule: spawn_args.induct) simp_all

lemma py_split_tokens:
  "t \<in> set (py_split s) \<Longrightarrow> t \<noteq> [] \<and> (\<forall>c \<in> set t. \<not> py_isspace c)"
proof (induction s arbitrary: t rule: py_split.induct)
  case (1 s)
  show ?case
  proof (cases "dropWhile py_isspace s")
    case Nil
    with "1.prems" show ?thesis by (simp add: py_split_Nil)
  next
    case (Cons c r)
    then have c: "\<not> py_isspace c"
      by (simp add: dropWhile_eq_Cons_conv)
    from "1.prems" Cons
    consider "t = c # takeWhile (\<lambda>x. \<not> py_isspace x) r"
      | "t \<in> set (py_split (dropWhile (\<lambda>x. \<not> py_isspace x) r))"
      by (auto simp: py_split_Cons)
    then show ?thesis
    proof cases
      case 1
      with c show ?thesis by (auto dest: set_takeWhileD)
    next
      case 2
      with "1.IH" [OF Cons] show ?thesis by blast
    qed
  qed
qed

lemma filter_run: "filter P xs = takeWhile P xs @ filter P (dropWhile P xs)"
  by (induction xs) auto

lemma py_split_concat:
  "concat (py_split s) = filter (\<lambda>c. \<not> py_isspace c) s"
proof (induction s rule: py_split.induct)
  case (1 s)
  have s: "s = takeWhile py_isspace s @ dropWhile py_isspace s" by simp
  have tw: "filter (\<lambda>c. \<not> py_isspace c) (takeWhile py_isspace s) = []"
    by (auto simp: filter_empty_conv dest: set_takeWhileD)
  have split: "filter (\<lambda>c. \<not> py_isspace c) s =
      filter (\<lambda>c. \<not> py_isspace c) (dropWhile py_isspace s)"
    by (subst s, simp only: filter_append tw append_Nil)
  show ?case
  proof (cases "dropWhile py_isspace s")
    case Nil
    with split show ?thesis by (simp add: py_split_Nil)
  next
    case (Cons c r)
    then have c: "\<not> py_isspace c"
      by (simp add: dropWhile_eq_Cons_conv)
    have r: "filter (\<lambda>c. \<not> py_isspace c) r =
        takeWhile (\<lambda>x. \<not> py_isspace x) r
          @ filter (\<lambda>c. \<not> py_isspace c) (dropWhile (\<lambda>x. \<not> py_isspace x) r)"
      by (rule filter_run)
    show ?thesis
      by (simp add: py_split_Cons [OF Cons] "1.IH" [OF Cons] split Cons c r)
  qed
qed

subsection \<open>The invariants hold in every reachable state\<close>

lemma buttons_inv_length: "buttons_inv s \<Longrightarrow> length (connection_buttons s) = length (connections s)"
  by (simp add: buttons_inv_def)

lemma buttons_inv_update:
  "length (connection_buttons s) = length (connections s) \<Longrightarrow> buttons_inv (update_buttons_state s)"
  by (simp add: buttons_inv_def connection_buttons_update update_buttons_state_fields)

lemma buttons_inv_render: "buttons_inv (render_connections s)"
  by (simp add: render_connections_def buttons_inv_update)

lemma stop_returns:
  assumes r: "stop_chisel_process w s = Returns (w1, s1)"
  shows "s1 = s\<lparr>active_process := None\<rparr>"
    and "next_pid w1 = next_pid w"
    and "popen_error w1 = popen_error w"
    and "active_process s \<noteq> Some q \<Longrightarrow> exit_code w1 q = exit_code w q"
    and "active_process s = Some q \<Longrightarrow> exit_code w1 q \<noteq> None"
proof -
  have "s1 = s\<lparr>active_process := None\<rparr> \<and> next_pid w1 = next_pid w
      \<and> popen_error w1 = popen_error w
      \<and> (active_process s \<noteq> Some q \<longrightarrow> exit_code w1 q = exit_code w q)
      \<and> (active_process s = Some q \<longrightarrow> exit_code w1 q \<noteq> None)"
  proof (cases "active_process s")
    case None
    with r show ?thesis by (simp add: stop_chisel_process_def)
  next
    case (Some p)
    show ?thesis
    proof (cases "exit_code w p")
      case (Some rc)
      with r \<open>active_process s = Some p\<close> show ?thesis
        by (auto simp: stop_chisel_process_def poll_def)
    next
      case None
      show ?thesis
      proof (cases "sigterm_exit w p")
        case None
        with r \<open>active_process s = Some p\<close> \<open>exit_code w p = None\<close> show ?thesis
          by (simp add: stop_chisel_process_def poll_def wait_def terminate_def)
      next
        case (Some rc)
        with r \<open>active_process s = Some p\<close> \<open>exit_code w p = None\<close>
        have "w1 = w\<lparr>exit_code := (exit_code w)(p := Some rc),
              trace := trace w @ [Ev_terminate p, Ev_wait p]\<rparr>"
          and "s1 = s\<lparr>active_process := None\<rparr>"
          by (simp_all add: stop_chisel_process_def poll_def wait_def terminate_def)
        with \<open>active_process s = Some p\<close> show ?thesis by simp
      qed
    qed
  qed
  then show "s1 = s\<lparr>active_process := None\<rparr>"
    and "next_pid w1 = next_pid w"
    and "popen_error w1 = popen_error w"
    and "active_process s \<noteq> Some q \<Longrightarrow> exit_code w1 q = exit_code w q"
    and "active_process s = Some q \<Longrightarrow> exit_code w1 q \<noteq> None"
    by simp_all
qed

lemma stop_never_raises: "stop_chisel_process w s \<noteq> Raises e x"
  by (simp add: stop_chisel_process_def split: option.split)

lemma stop_quiet:
  assumes r: "stop_chisel_process w s = Returns (w1, s1)" and inv: "handle_inv w s"
  shows "\<forall>p < next_pid w1. exit_code w1 p \<noteq> None"
proof (intro allI impI)
  fix p assume "p < next_pid w1"
  then have p: "p < next_pid w" using stop_returns(2) [OF r] by simp
  show "exit_code w1 p \<noteq> None"
  proof (cases "active_process s = Some p")
    case True
    then show ?thesis by (rule stop_returns(5) [OF r])
  next
    case False
    then have "exit_code w1 p = exit_code w p" by (rule stop_returns(4) [OF r])
    moreover from inv p False have "exit_code w p \<noteq> None"
      unfolding handle_inv_def by blast
    ultimately show ?thesis by simp
  qed
qed

lemma quiet_idle:
  assumes "\<forall>p < next_pid w. exit_code w p \<noteq> None"
    and "active_process s = None" and "active_connection_index s = None"
  shows "handle_inv w s"
  using assms unfolding handle_inv_def by simp

lemma start_chisel_inv:
  assumes quiet: "\<forall>p < next_pid w. exit_code w p \<noteq> None"
    and st: "start_chisel conn w (s\<lparr>active_connection_index := Some i\<rparr>) = (w', s')"
  shows "handle_inv w' s'" and "connections s' = connections s"
    and "connection_buttons s' = connection_buttons s"
proof -
  show "handle_inv w' s'"
  proof (cases "popen_error w")
    case None
    with st have n: "next_pid w' = Suc (next_pid w)"
      and e: "exit_code w' = (exit_code w)(next_pid w := None)"
      and a: "active_process s' = Some (next_pid w)"
      and i: "active_connection_index s' = Some i"
      by (auto simp: start_chisel_def popen_def)
    show ?thesis
      unfolding handle_inv_def n e a i using quiet by (simp add: less_Suc_eq)
  next
    case (Some msg)
    with st have n: "next_pid w' = next_pid w" and e: "exit_code w' = exit_code w"
      and a: "active_process s' = None" and i: "active_connection_index s' = None"
      by (auto simp: start_chisel_def popen_def)
    show ?thesis
      unfolding handle_inv_def n e a i using quiet by simp
  qed
  show "connections s' = connections s"
    using st by (cases "popen_error w") (auto simp: start_chisel_def popen_def)
  show "connection_buttons s' = connection_buttons s"
    using st by (cases "popen_error w") (auto simp: start_chisel_def popen_def)
qed

lemma handle_inv_update: "handle_inv w (update_buttons_state s) = handle_inv w s"
  by (simp add: handle_inv_def update_buttons_state_fields)

lemma connect_idle:
  assumes "active_connection_index s = None" and "py_index (connections s) i = Some conn"
    and "start_chisel conn w (s\<lparr>active_connection_index := Some i\<rparr>) = (w3, s3)"
  shows "connect_connection i w s = Returns (w3, update_buttons_state s3)"
  using assms by (simp add: connect_connection_def)

lemma connect_swap:
  assumes "active_connection_index s = Some a" and "a \<noteq> i"
    and "stop_chisel_process w s = Returns (w1, s1)"
    and "py_index (connections s1) i = Some conn"
    and "start_chisel conn w1 (s1\<lparr>active_connection_index := Some i\<rparr>) = (w3, s3)"
  shows "connect_connection i w s = Returns (w3, update_buttons_state s3)"
  using assms by (simp add: connect_connection_def)

lemma connect_blocks:
  assumes "active_connection_index s = Some a" and "a \<noteq> i"
    and "stop_chisel_process w s = Blocks"
  shows "connect_connection i w s = Blocks"
  using assms by (simp add: connect_connection_def)


lemma idle_quiet:
  assumes inv: "handle_inv w s" and idle: "active_connection_index s = None"
    and p: "p < next_pid w"
  shows "exit_code w p \<noteq> None"
proof
  assume run: "exit_code w p = None"
  from inv have a: "(active_connection_index s = None) = (active_process s = None)"
    and c: "\<forall>p < next_pid w. exit_code w p = None \<longrightarrow> active_process s = Some p"
    unfolding handle_inv_def by blast+
  from a idle have "active_process s = None" by blast
  moreover from c p run have "active_process s = Some p" by blast
  ultimately show False by simp
qed

lemma connect_inv_idle:
  assumes inv: "handle_inv w s" "buttons_inv s"
    and row: "0 \<le> i" "i < int (length (connections s))"
    and res: "after (connect_connection i w s) = Some (w', s')"
    and None: "active_connection_index s = None"
  shows "handle_inv w' s' \<and> buttons_inv s'"
proof -
  have idx: "py_index (connections s) i = Some (connections s ! nat i)"
    using row by (simp add: py_index_def)
  have len: "length (connection_buttons s) = length (connections s)"
    using inv(2) by (rule buttons_inv_length)
  have quiet: "\<forall>p < next_pid w. exit_code w p \<noteq> None"
    using inv(1) None by (simp add: idle_quiet)
  obtain w3 s3 where st: "start_chisel (connections s ! nat i) w
        (s\<lparr>active_connection_index := Some i\<rparr>) = (w3, s3)"
    by (cases "start_chisel (connections s ! nat i) w (s\<lparr>active_connection_index := Some i\<rparr>)")
  from res connect_idle [OF None idx st]
  have eq: "w' = w3" "s' = update_buttons_state s3" by simp_all
  from start_chisel_inv [OF quiet st] len
  have "handle_inv w3 s3" and "length (connection_buttons s3) = length (connections s3)"
    by simp_all
  then show ?thesis
    unfolding eq by (simp add: handle_inv_update buttons_inv_update)
qed


lemma connect_inv_same:
  assumes inv: "handle_inv w s" "buttons_inv s"
    and row: "0 \<le> i" "i < int (length (connections s))"
    and res: "after (connect_connection i w s) = Some (w', s')"
    and Some: "active_connection_index s = Some i"
  shows "handle_inv w' s' \<and> buttons_inv s'"
proof -
  have len: "length (connection_buttons s) = length (connections s)"
    using inv(2) by (rule buttons_inv_length)
  from Some res have eq: "w' = w" "s' = update_buttons_state s"
    by (simp_all add: connect_connection_def)
  show ?thesis
    unfolding eq using inv len by (simp add: handle_inv_update buttons_inv_update)
qed


lemma connect_inv_swap:
  assumes inv: "handle_inv w s" "buttons_inv s"
    and row: "0 \<le> i" "i < int (length (connections s))"
    and res: "after (connect_connection i w s) = Some (w', s')"
    and Some: "active_connection_index s = Some a" and False: "a \<noteq> i"
  shows "handle_inv w' s' \<and> buttons_inv s'"
proof -
  have idx: "py_index (connections s) i = Some (connections s ! nat i)"
    using row by (simp add: py_index_def)
  have len: "length (connection_buttons s) = length (connections s)"
    using inv(2) by (rule buttons_inv_length)
  show ?thesis
      proof (cases "stop_chisel_process w s")
        case Blocks
        from res connect_blocks [OF Some False Blocks] show ?thesis by simp
      next
        case (Raises e x)
        with stop_never_raises show ?thesis by blast
      next
        case (Returns x)
        obtain w1 s1 where x: "x = (w1, s1)" by (cases x)
        with Returns have r: "stop_chisel_process w s = Returns (w1, s1)" by simp
        have s1: "s1 = s\<lparr>active_process := None\<rparr>" by (rule stop_returns(1) [OF r])
        have quiet: "\<forall>p < next_pid w1. exit_code w1 p \<noteq> None"
          by (rule stop_quiet [OF r inv(1)])
        have idx1: "py_index (connections s1) i = Some (connections s ! nat i)"
          using idx s1 by simp
        obtain w3 s3 where st: "start_chisel (connections s ! nat i) w1
            (s1\<lparr>active_connection_index := Some i\<rparr>) = (w3, s3)"
          by (cases "start_chisel (connections s ! nat i) w1 (s1\<lparr>active_connection_index := Some i\<rparr>)")
        from res connect_swap [OF Some False r idx1 st]
        have eq: "w' = w3" "s' = update_buttons_state s3" by simp_all
        from start_chisel_inv [OF quiet st] len s1
        have "handle_inv w3 s3" and "length (connection_buttons s3) = length (connections s3)"
          by simp_all
        then show ?thesis
          unfolding eq by (simp add: handle_inv_update buttons_inv_update)
      qed
qed

lemma connect_inv:
  assumes inv: "handle_inv w s" "buttons_inv s"
    and row: "0 \<le> i" "i < int (length (connections s))"
    and res: "after (connect_connection i w s) = Some (w', s')"
  shows "handle_inv w' s' \<and> buttons_inv s'"
proof (cases "active_connection_index s")
  case None
  from inv row res None show ?thesis by (rule connect_inv_idle)
next
  case (Some a)
  show ?thesis
  proof (cases "a = i")
    case True
    with Some have "active_connection_index s = Some i" by simp
    with inv row res show ?thesis by (rule connect_inv_same)
  next
    case False
    from inv row res Some False show ?thesis by (rule connect_inv_swap)
  qed
qed

lemma handle_inv_cong:
  assumes "active_connection_index s' = active_connection_index s"
    and "active_process s' = active_process s"
    and "next_pid w' = next_pid w" and "exit_code w' = exit_code w"
  shows "handle_inv w' s' = handle_inv w s"
  using assms by (simp add: handle_inv_def)

lemma disconnect_inv:
  assumes inv: "handle_inv w s" "buttons_inv s"
    and res: "after (disconnect_connection i w s) = Some (w', s')"
  shows "handle_inv w' s' \<and> buttons_inv s'"
proof (cases "active_connection_index s = Some i")
  case False
  with res have "w' = w" "s' = s" by (simp_all add: disconnect_connection_def)
  with inv show ?thesis by simp
next
  case True
  have len: "length (connection_buttons s) = length (connections s)"
    using inv(2) by (rule buttons_inv_length)
  show ?thesis
  proof (cases "stop_chisel_process w s")
    case Blocks
    with res True show ?thesis by (simp add: disconnect_connection_def)
  next
    case (Raises e x)
    with stop_never_raises show ?thesis by blast
  next
    case (Returns x)
    obtain w1 s1 where x: "x = (w1, s1)" by (cases x)
    with Returns have r: "stop_chisel_process w s = Returns (w1, s1)" by simp
    have s1: "s1 = s\<lparr>active_process := None\<rparr>" by (rule stop_returns(1) [OF r])
    have quiet: "\<forall>p < next_pid w1. exit_code w1 p \<noteq> None"
      by (rule stop_quiet [OF r inv(1)])
    from res True r have eq: "w' = w1"
      "s' = update_buttons_state (s1\<lparr>active_connection_index := None\<rparr>)"
      by (simp_all add: disconnect_connection_def)
    have "handle_inv w1 (s1\<lparr>active_connection_index := None\<rparr>)"
      using quiet by (rule quiet_idle) (simp_all add: s1)
    moreover have "length (connection_buttons (s1\<lparr>active_connection_index := None\<rparr>))
        = length (connections (s1\<lparr>active_connection_index := None\<rparr>))"
      using len by (simp add: s1)
    ultimately show ?thesis
      unfolding eq by (simp add: handle_inv_update buttons_inv_update)
  qed
qed

lemma save_config_processes:
  "next_pid (save_config cfg w) = next_pid w" "exit_code (save_config cfg w) = exit_code w"
  by (simp_all add: save_config_def fopen_w_def json_dump_def fclose_def)

lemma render_connections_fields:
  "active_process (render_connections s) = active_process s"
  "active_connection_index (render_connections s) = active_connection_index s"
  "connections (render_connections s) = connections s"
  by (simp_all add: render_connections_def update_buttons_state_fields)

lemma delete_inv:
  assumes inv: "handle_inv w s" "buttons_inv s"
    and res: "delete_connection i w s = (w', s')"
  shows "handle_inv w' s' \<and> buttons_inv s'"
proof (cases "0 \<le> i \<and> i < int (length (connections s))")
  case False
  with res have "w' = w" "s' = s" by (simp_all add: delete_connection_def)
  with inv show ?thesis by simp
next
  case True
  let ?data = "JDict [(''connections'', JList (map to_dict (list_pop (connections s) (nat i)))),
                      (''settings'', settings_data s)]"
  from res True have eq: "w' = save_config ?data w"
    "s' = render_connections (s\<lparr>connections := list_pop (connections s) (nat i),
                                  config_data := ?data\<rparr>)"
    by (simp_all add: delete_connection_def save_all_def Let_def)
  have "handle_inv w' s' = handle_inv w s"
    unfolding eq by (rule handle_inv_cong) (simp_all add: save_config_processes render_connections_fields)
  moreover have "buttons_inv s'"
    unfolding eq by (rule buttons_inv_render)
  ultimately show ?thesis using inv by simp
qed

lemma not_connected_fields:
  "active_process (not_connected s) = active_process s"
  "active_connection_index (not_connected s) = active_connection_index s"
  "connections (not_connected s) = connections s"
  "connection_buttons (not_connected s) = connection_buttons s"
  by (simp_all add: not_connected_def)

lemma handle_inv_not_connected: "handle_inv w (not_connected s) = handle_inv w s"
  by (simp add: handle_inv_def not_connected_fields)

lemma buttons_inv_not_connected: "buttons_inv (not_connected s) = buttons_inv s"
  by (simp add: buttons_inv_def not_connected_fields)

lemma tick_inv:
  assumes inv: "handle_inv w s" "buttons_inv s"
    and res: "after (update_connection_status w s) = Some (w', s')"
  shows "handle_inv w' s' \<and> buttons_inv s'"
proof (cases "\<exists>i p. active_connection_index s = Some i \<and> active_process s = Some p")
  case False
  then have "update_connection_status w s = Returns (w, not_connected s)"
    by (auto simp: update_connection_status_def split: option.splits)
  with res have "w' = w" "s' = not_connected s" by simp_all
  with inv show ?thesis
    by (simp add: handle_inv_not_connected buttons_inv_not_connected)
next
  case True
  then obtain i p where act: "active_connection_index s = Some i" "active_process s = Some p"
    by blast
  have len: "length (connection_buttons s) = length (connections s)"
    using inv(2) by (rule buttons_inv_length)
  show ?thesis
  proof (cases "exit_code w p")
    case None
    show ?thesis
    proof (cases "py_index (connections s) i")
      case None
      with act \<open>exit_code w p = None\<close> res have "w' = w" "s' = s"
        by (simp_all add: update_connection_status_def poll_def)
      with inv show ?thesis by simp
    next
      case (Some conn)
      with act \<open>exit_code w p = None\<close> res have eq: "w' = w"
        "s' = s\<lparr>status_text := ''Connected to '' @ name conn,
                status_style := ''color: green; font-size: 14px; font-weight: bold;''\<rparr>"
        by (simp_all add: update_connection_status_def poll_def)
      have "handle_inv w' s' = handle_inv w s"
        unfolding eq by (rule handle_inv_cong) simp_all
      moreover have "buttons_inv s' = buttons_inv s"
        unfolding eq by (simp add: buttons_inv_def)
      ultimately show ?thesis using inv by simp
    qed
  next
    case (Some rc)
    have r: "stop_chisel_process w s = Returns (w, s\<lparr>active_process := None\<rparr>)"
      using act(2) Some by (rule stop_exited)
    let ?s1 = "s\<lparr>active_process := None\<rparr>"
    from act Some r res have eq: "w' = w"
      "s' = not_connected (update_buttons_state (?s1\<lparr>active_connection_index := None\<rparr>))"
      by (simp_all add: update_connection_status_def poll_def)
    have quiet: "\<forall>p < next_pid w. exit_code w p \<noteq> None"
      by (rule stop_quiet [OF r inv(1)])
    have "handle_inv w (?s1\<lparr>active_connection_index := None\<rparr>)"
      using quiet by (rule quiet_idle) simp_all
    moreover have "length (connection_buttons (?s1\<lparr>active_connection_index := None\<rparr>))
        = length (connections (?s1\<lparr>active_connection_index := None\<rparr>))"
      using len by simp
    ultimately show ?thesis
      unfolding eq
      by (simp add: handle_inv_not_connected buttons_inv_not_connected handle_inv_update
          buttons_inv_update)
  qed
qed

lemma child_exits_inv:
  assumes inv: "handle_inv w s"
  shows "handle_inv (child_exits p rc w) s"
proof -
  have n: "next_pid (child_exits p rc w) = next_pid w"
    by (simp add: child_exits_def)
  have e: "exit_code (child_exits p rc w) q = None \<Longrightarrow> exit_code w q = None" for q
    by (simp add: child_exits_def split: if_splits)
  from inv have a: "(active_connection_index s = None) = (active_process s = None)"
    and b: "\<forall>p. active_process s = Some p \<longrightarrow> p < next_pid w"
    and c: "\<forall>p < next_pid w. exit_code w p = None \<longrightarrow> active_process s = Some p"
    unfolding handle_inv_def by blast+
  show ?thesis
    unfolding handle_inv_def n using a b c e by blast
qed

lemma init_inv:
  assumes "initial_world w"
  shows "handle_inv w (init_window cfg conns settings) \<and> buttons_inv (init_window cfg conns settings)"
proof -
  have "handle_inv w (init_window cfg conns settings)"
    using assms
    by (intro quiet_idle) (simp_all add: initial_world_def init_window_def render_connections_fields)
  moreover have "buttons_inv (init_window cfg conns settings)"
    unfolding init_window_def by (rule buttons_inv_render)
  ultimately show ?thesis by simp
qed

lemma exec_inv:
  assumes inv: "handle_inv w s" "buttons_inv s"
    and ok: "offered c s"
    and res: "after (exec c w s) = Some (w', s')"
  shows "handle_inv w' s' \<and> buttons_inv s'"
proof (cases c)
  case (Connect i)
  with ok have "0 \<le> i" "i < int (length (connections s))" by simp_all
  moreover from Connect res have "after (connect_connection i w s) = Some (w', s')" by simp
  ultimately show ?thesis using inv by (intro connect_inv [of w s i])
next
  case (Disconnect i)
  with res have "after (disconnect_connection i w s) = Some (w', s')" by simp
  with inv show ?thesis by (rule disconnect_inv)
next
  case (Delete i)
  with res have "delete_connection i w s = (w', s')" by simp
  with inv show ?thesis by (rule delete_inv)
next
  case Tick
  with res have "after (update_connection_status w s) = Some (w', s')" by simp
  with inv show ?thesis by (rule tick_inv)
next
  case (Child_exits p rc)
  with res have "w' = child_exits p rc w" "s' = s" by simp_all
  with inv show ?thesis by (simp add: child_exits_inv)
next
  case (Popen_raises e)
  with res have eq: "w' = w\<lparr>popen_error := e\<rparr>" "s' = s" by simp_all
  have "handle_inv w' s' = handle_inv w s"
    unfolding eq by (rule handle_inv_cong) simp_all
  with inv eq show ?thesis by simp
qed

lemma reachable_inv: "reachable w s \<Longrightarrow> handle_inv w s \<and> buttons_inv s"
proof (induction rule: reachable.induct)
  case (start w cfg conns settings)
  then show ?case by (rule init_inv)
next
  case (step w s c w' s')
  from step.IH have "handle_inv w s" "buttons_inv s" by simp_all
  then show ?case using step.hyps(2,3) by (rule exec_inv)
qed

lemma button_row_flags:
  "snd (button_row a i) \<longleftrightarrow> a = Some (int i)"
  "fst (button_row a i) \<longleftrightarrow> a \<noteq> Some (int i)"
  by (cases a; simp add: button_row_def; fastforce)+



lemma connect_deaf: "after (connect_connection 0 deaf_world boot_window) = Some deaf_run"
  by (simp add: deaf_run_def deaf_world_def sample_defs op_defs split_eval)

lemma reachable_deaf: "reachable (fst deaf_run) (snd deaf_run)"
proof -
  have "reachable deaf_world boot_window"
    unfolding boot_window_def
    by (rule reachable.start) (simp add: initial_world_def deaf_world_def boot_world_def)
  moreover have "offered (Connect 0) boot_window"
    by (simp add: sample_defs op_defs)
  moreover have "after (exec (Connect 0) deaf_world boot_window) = Some (fst deaf_run, snd deaf_run)"
    by (simp add: connect_deaf)
  ultimately show ?thesis by (rule reachable.step)
qed

section \<open>The claims\<close>

subsection \<open>The configuration file\<close>

text \<open>
  C2, as amended. When the config file is missing, \<open>load_config\<close> returns the default
  store (no connections, startup "When logged in", shutoff "On log off"). When the file
  is there and its content is not a JSON document, \<open>load_config\<close> does not return the
  default: the decoder's error comes out of it.
\<close>

theorem load_config_missing_or_malformed:
  "(disk w CONFIG_FILE = None \<longrightarrow> load_config w = Inr default_config)
   \<and> (disk w CONFIG_FILE = Some t \<and> (\<forall>v. t \<noteq> Json_text v)
        \<longrightarrow> load_config w = Inl JSONDecodeError)"
  by (cases t) (simp_all add: load_config_def)

theorem load_config_missing_or_malformed_witness:
  "load_config boot_world = Inr default_config
   \<and> load_config corrupt_world = Inl JSONDecodeError"
  using load_config_missing_or_malformed [of boot_world]
    load_config_missing_or_malformed [of corrupt_world Bad_text]
  by (simp add: boot_world_def corrupt_world_def)

text \<open>
  C2 as stated fails: with a config file whose content is malformed, \<open>load_config\<close>
  does not return the default store.
\<close>

theorem load_config_malformed_not_default:
  "disk corrupt_world CONFIG_FILE = Some Bad_text
   \<and> load_config corrupt_world \<noteq> Inr default_config"
  by (simp add: load_config_def corrupt_world_def)

text \<open>
  C3, as amended. \<open>save_config\<close> rewrites the config file in place: it opens the file
  itself for writing, which empties it, writes the whole document into it and closes
  it. These three calls are all it does to the file system (no second file, no rename).
  When it is done the file holds exactly the new document, whatever it held before;
  between the open and the write the file is empty.
\<close>

theorem save_config_in_place:
  "disk (save_config cfg w) = (disk w)(CONFIG_FILE \<mapsto> Json_text cfg)
   \<and> trace (save_config cfg w) =
       trace w @ [Ev_open_w CONFIG_FILE, Ev_write CONFIG_FILE cfg, Ev_close CONFIG_FILE]
   \<and> last (save_config_instants cfg w) = save_config cfg w
   \<and> disk (save_config_instants cfg w ! 1) CONFIG_FILE = Some Empty_text"
  by (simp add: save_config_def save_config_instants_def fopen_w_def json_dump_def fclose_def
      Let_def)

text \<open>
  C3 as stated fails: saving a new configuration over a stored one passes through an
  instant at which the config file holds neither the old document nor the new one but
  nothing, and the only files touched are the config file itself.
\<close>

theorem save_config_truncates_first:
  "disk (save_config_instants home_config saved_world ! 1) CONFIG_FILE = Some Empty_text
   \<and> disk saved_world CONFIG_FILE = Some (Json_text default_config)
   \<and> Json_text default_config \<noteq> Empty_text \<and> Json_text home_config \<noteq> Empty_text
   \<and> trace (save_config home_config saved_world) =
       [Ev_open_w CONFIG_FILE, Ev_write CONFIG_FILE home_config, Ev_close CONFIG_FILE]"
  by (simp add: save_config_def save_config_instants_def fopen_w_def json_dump_def fclose_def
      Let_def saved_world_def boot_world_def)

subsection \<open>The command line\<close>

text \<open>
  C7. \<open>start_chisel\<close> hands \<^verbatim>\<open>Popen\<close> one more command line, the list
  \<open>chisel\<close>, \<open>client\<close>, the profile's url, then the tokens of its arguments string.
  The list goes to \<^verbatim>\<open>Popen\<close> as it is (no shell). The tokens are cut at whitespace
  and nowhere else: no token is empty, no token holds a whitespace character (so a
  quoted value with a blank in it is never one token), and together they are the
  non-whitespace characters of the string in order.
\<close>

theorem start_chisel_command_line:
  "spawn_args (trace (fst (start_chisel conn w s))) =
     spawn_args (trace w) @ [[''chisel'', ''client'', url conn] @ py_split (arguments conn)]
   \<and> (\<forall>t \<in> set (py_split (arguments conn)). t \<noteq> [] \<and> (\<forall>c \<in> set t. \<not> py_isspace c))
   \<and> concat (py_split (arguments conn)) = filter (\<lambda>c. \<not> py_isspace c) (arguments conn)"
proof -
  have "spawn_args (trace (fst (start_chisel conn w s))) =
     spawn_args (trace w) @ [[''chisel'', ''client'', url conn] @ py_split (arguments conn)]"
    by (cases "popen_error w")
      (simp_all add: start_chisel_def popen_def chisel_cmd_def spawn_args_append Let_def)
  then show ?thesis
    using py_split_tokens [of _ "arguments conn"] py_split_concat [of "arguments conn"]
    by blast
qed

theorem start_chisel_command_line_witness:
  "spawn_args (trace (fst (start_chisel office boot_world boot_window))) =
     [[''chisel'', ''client'', ''https://o.example'', ''--auth'',
       [CHR 0x22, CHR ''a''], [CHR ''b'', CHR 0x22], ''3000'']]
   \<and> [CHR 0x22, CHR ''a'', CHR '' '', CHR ''b'', CHR 0x22] \<notin> set (py_split (arguments office))"
  using start_chisel_command_line [of office boot_world boot_window]
  by (simp add: office_def boot_world_def py_split_Nil py_split_Cons py_isspace_def)

subsection \<open>Deleting, connecting again, switching\<close>

text \<open>
  C10. For an index outside \<open>[0, number of stored connections)\<close>,
  \<open>delete_connection\<close> changes nothing: the window (profile list, active index,
  process handle) and the world (the config file, and the trace, so no file is opened
  or written) are the ones it was given.
\<close>

theorem delete_connection_out_of_range:
  "\<not> (0 \<le> index \<and> index < int (length (connections s))) \<Longrightarrow>
   delete_connection index w s = (w, s)"
  by (auto simp: delete_connection_def)

theorem delete_connection_out_of_range_witness:
  "delete_connection 2 boot_world boot_window = (boot_world, boot_window)
   \<and> delete_connection (- 1) boot_world boot_window = (boot_world, boot_window)
   \<and> length (connections boot_window) = 2"
  using delete_connection_out_of_range [of 2 boot_window boot_world]
    delete_connection_out_of_range [of "- 1" boot_window boot_world]
  by (simp add: boot_window_def init_window_def render_connections_def update_buttons_state_def)

text \<open>
  C6. When index \<open>i\<close> is already the active one, \<open>connect_connection i\<close> returns
  with the world untouched (no spawn, no terminate, nothing on the trace) and with the
  active index, the process handle and the profile list as they were; only the button
  flags are recomputed.
\<close>

theorem connect_connection_same_index:
  "active_connection_index s = Some index \<Longrightarrow>
   connect_connection index w s = Returns (w, update_buttons_state s)
   \<and> active_process (update_buttons_state s) = active_process s
   \<and> active_connection_index (update_buttons_state s) = Some index
   \<and> connections (update_buttons_state s) = connections s"
  by (simp add: connect_connection_def update_buttons_state_def)

theorem connect_connection_same_index_witness:
  "connect_connection 0 home_world home_window =
     Returns (home_world, update_buttons_state home_window)
   \<and> active_process (update_buttons_state home_window) = Some 0
   \<and> active_connection_index (update_buttons_state home_window) = Some 0"
  using connect_connection_same_index [of home_window 0 home_world]
  by (simp add: home_run_fields)

text \<open>
  C5, as amended. Let index \<open>a\<close> be active with its child \<open>p\<close> running, and let
  \<open>b\<close> be another row of the list. Provided \<open>p\<close> exits when it gets SIGTERM,
  \<open>connect_connection b\<close> returns, and what it did to processes is, in this order: one
  terminate of \<open>p\<close>, one wait for \<open>p\<close>, one \<^verbatim>\<open>Popen\<close> with the command line of
  profile \<open>b\<close> (followed by the error box when the spawn fails). \<open>p\<close> has exited
  before the spawn, and the handle held afterwards is never \<open>p\<close>: it is the new child,
  or none when the spawn failed.
\<close>

theorem swap_connection:
  assumes active: "active_connection_index s = Some a" "active_process s = Some p"
    and other: "a \<noteq> b" "0 \<le> b" "b < int (length (connections s))"
    and running: "p < next_pid w" "exit_code w p = None"
    and dies: "sigterm_exit w p = Some rc"
  shows "\<exists>w' s'. connect_connection b w s = Returns (w', s')
     \<and> trace w' = trace w @ [Ev_terminate p, Ev_wait p]
          @ (case popen_error w of
               None \<Rightarrow> [Ev_popen (chisel_cmd (connections s ! nat b)) (Some (next_pid w))]
             | Some msg \<Rightarrow>
                 [Ev_popen (chisel_cmd (connections s ! nat b)) None,
                  Ev_critical ''Error'' (''Failed to start chisel:'' @ [CHR 0x0A] @ msg)])
     \<and> exit_code w' p = Some rc
     \<and> active_process s' \<noteq> Some p
     \<and> active_process s' =
          (case popen_error w of None \<Rightarrow> Some (next_pid w) | Some msg \<Rightarrow> None)
     \<and> active_connection_index s' =
          (case popen_error w of None \<Rightarrow> Some b | Some msg \<Rightarrow> None)"
proof -
  have stop: "stop_chisel_process w s =
      Returns (w\<lparr>exit_code := (exit_code w)(p := Some rc),
                 trace := trace w @ [Ev_terminate p, Ev_wait p]\<rparr>,
               s\<lparr>active_process := None\<rparr>)"
    using active running dies
    by (simp add: stop_chisel_process_def poll_def terminate_def wait_def)
  have idx: "py_index (connections s) b = Some (connections s ! nat b)"
    using other by (simp add: py_index_def)
  show ?thesis
  proof (cases "popen_error w")
    case None
    then show ?thesis
      using active other running stop idx
      by (simp add: connect_connection_def start_chisel_def popen_def update_buttons_state_def)
  next
    case (Some msg)
    then show ?thesis
      using active other running stop idx
      by (simp add: connect_connection_def start_chisel_def popen_def update_buttons_state_def)
  qed
qed

theorem swap_connection_witness:
  "\<exists>w' s'. connect_connection 1 home_world home_window = Returns (w', s')
     \<and> trace w' = trace home_world @
          [Ev_terminate 0, Ev_wait 0,
           Ev_popen [''chisel'', ''client'', ''https://o.example'', ''--auth'',
                     [CHR 0x22, CHR ''a''], [CHR ''b'', CHR 0x22], ''3000''] (Some 1)]
     \<and> exit_code w' 0 = Some (- 15)
     \<and> active_process s' = Some 1 \<and> active_connection_index s' = Some 1"
proof -
  have len: "length (connections home_window) = 2"
    by (simp add: sample_defs op_defs split_eval)
  have cmd: "chisel_cmd (connections home_window ! Suc 0) =
      [''chisel'', ''client'', ''https://o.example'', ''--auth'',
       [CHR 0x22, CHR ''a''], [CHR ''b'', CHR 0x22], ''3000'']"
    by (simp add: sample_defs op_defs split_eval)
  show ?thesis
    using swap_connection [of home_window 0 0 1 home_world "- 15"]
    by (auto simp: home_run_fields len cmd)
qed

text \<open>
  C5 as stated fails: \<open>home\<close> is connected in a world whose children ignore SIGTERM,
  a state the window reaches, and Connect is pressed on \<open>office\<close>. The wait for
  \<open>home\<close>'s child never ends, so \<open>connect_connection\<close> does not return and no
  process is spawned for \<open>office\<close>.
\<close>

theorem swap_connection_blocks:
  "reachable (fst deaf_run) (snd deaf_run)
   \<and> active_connection_index (snd deaf_run) = Some 0
   \<and> active_process (snd deaf_run) = Some 0
   \<and> exit_code (fst deaf_run) 0 = None
   \<and> length (connections (snd deaf_run)) = 2
   \<and> connect_connection 1 (fst deaf_run) (snd deaf_run) = Blocks
   \<and> after (connect_connection 1 (fst deaf_run) (snd deaf_run)) = None"
proof -
  have "active_connection_index (snd deaf_run) = Some 0
   \<and> active_process (snd deaf_run) = Some 0
   \<and> exit_code (fst deaf_run) 0 = None
   \<and> length (connections (snd deaf_run)) = 2
   \<and> connect_connection 1 (fst deaf_run) (snd deaf_run) = Blocks
   \<and> after (connect_connection 1 (fst deaf_run) (snd deaf_run)) = None"
    by (simp add: deaf_run_def deaf_world_def sample_defs op_defs split_eval)
  with reachable_deaf show ?thesis by simp
qed

subsection \<open>The timer tick\<close>

text \<open>
  C4. Let a profile be active, with a process handle held, and let the child have
  exited on its own. The tick returns with no active index and no handle; the status
  label reads "Not Connected", every row offers Connect only, and the world is
  untouched: nothing is terminated and no error box (the report of a failed spawn) is
  shown.
\<close>

theorem tick_detects_exit:
  assumes "active_connection_index s = Some i" and "active_process s = Some p"
    and "exit_code w p = Some rc"
  shows "\<exists>s'. update_connection_status w s = Returns (w, s')
     \<and> active_connection_index s' = None \<and> active_process s' = None
     \<and> status_text s' = ''Not Connected''
     \<and> connections s' = connections s
     \<and> connection_buttons s' = map (\<lambda>k. (True, False)) [0 ..< length (connection_buttons s)]"
  using assms
  by (simp add: update_connection_status_def poll_def stop_exited not_connected_def
      connection_buttons_update update_buttons_state_fields button_row_def)

theorem tick_detects_exit_witness:
  "\<exists>s'. update_connection_status (child_exits 0 1 home_world) home_window
            = Returns (child_exits 0 1 home_world, s')
     \<and> active_connection_index s' = None \<and> active_process s' = None
     \<and> status_text s' = ''Not Connected''
     \<and> connection_buttons s' = [(True, False), (True, False)]"
  using tick_detects_exit [of home_window 0 0 "child_exits 0 1 home_world" 1]
  by (auto simp: home_run_fields child_exits_def upt_rec)

subsection \<open>All reachable states\<close>



text \<open>
  In every such state the button flags are computed from \<open>active_connection_index\<close>
  and the number of rows alone: row \<open>i\<close> has Disconnect enabled if and only if \<open>i\<close>
  is that index, Connect if and only if it is not, and at most one row has Disconnect
  enabled. Whether row \<open>i\<close> is the profile whose child runs is another matter, see
  below.
\<close>

lemma reachable_buttons:
  assumes "reachable w s"
  shows "connection_buttons s =
      map (button_row (active_connection_index s)) [0 ..< length (connections s)]
    \<and> (\<forall>i < length (connections s).
          (snd (connection_buttons s ! i) \<longleftrightarrow> active_connection_index s = Some (int i))
          \<and> (fst (connection_buttons s ! i) \<longleftrightarrow> active_connection_index s \<noteq> Some (int i)))
    \<and> (\<forall>i j. i < length (connections s) \<and> j < length (connections s)
          \<and> snd (connection_buttons s ! i) \<and> snd (connection_buttons s ! j) \<longrightarrow> i = j)"
proof -
  from assms have "buttons_inv s" by (simp add: reachable_inv)
  then have eq: "connection_buttons s =
      map (button_row (active_connection_index s)) [0 ..< length (connections s)]"
    by (simp add: buttons_inv_def)
  have row: "connection_buttons s ! i = button_row (active_connection_index s) i"
    if "i < length (connections s)" for i
    using that by (subst eq) simp
  have flags: "(snd (connection_buttons s ! i) \<longleftrightarrow> active_connection_index s = Some (int i))
      \<and> (fst (connection_buttons s ! i) \<longleftrightarrow> active_connection_index s \<noteq> Some (int i))"
    if "i < length (connections s)" for i
    using that by (simp add: row button_row_flags)
  have one: "i = j"
    if "i < length (connections s)" "j < length (connections s)"
      "snd (connection_buttons s ! i)" "snd (connection_buttons s ! j)" for i j
  proof -
    from that flags have "active_connection_index s = Some (int i)"
      "active_connection_index s = Some (int j)" by blast+
    then show ?thesis by simp
  qed
  from eq flags one show ?thesis by blast
qed

subsection \<open>Deleting the active profile\<close>

text \<open>
  C1 does not hold of the code. \<open>home\<close> is connected and then deleted:
  \<open>delete_connection\<close> removes it from the list and saves, but the handle is still
  held, the child still runs and nothing was terminated; the active index 0 now names
  \<open>office\<close>, and the next tick reports "Connected to office". After \<open>office\<close> is
  deleted as well the index names no profile and the tick raises \<open>IndexError\<close>.
\<close>

theorem delete_active_keeps_process:
  "active_process (snd home_deleted) = Some 0
   \<and> active_connection_index (snd home_deleted) = Some 0
   \<and> map name (connections (snd home_deleted)) = [''office'']
   \<and> exit_code (fst home_deleted) 0 = None
   \<and> Ev_terminate 0 \<notin> set (trace (fst home_deleted))
   \<and> map_option (status_text \<circ> snd)
        (after (update_connection_status (fst home_deleted) (snd home_deleted)))
      = Some ''Connected to office''
   \<and> connections (snd all_deleted) = []
   \<and> active_process (snd all_deleted) = Some 0
   \<and> update_connection_status (fst all_deleted) (snd all_deleted)
      = Raises IndexError all_deleted"
  by (simp add: home_deleted_def all_deleted_def sample_defs op_defs split_eval Let_def)

text \<open>
  C9 does not hold of the code, by the same defect as C1: \<open>delete_connection\<close> leaves
  \<open>active_connection_index\<close> as it was while the rows move up. With \<open>home\<close>
  connected and then deleted, the only row left is \<open>office\<close>, which was never
  connected: its Disconnect is enabled and its Connect disabled, and the child that runs
  is \<open>home\<close>'s. With \<open>office\<close> connected and \<open>home\<close> deleted, the only row left is
  \<open>office\<close>, whose child runs: its Disconnect is disabled and its Connect enabled,
  the index being 1 where no row is.
\<close>

theorem delete_leaves_buttons_on_wrong_row:
  "map name (connections (snd home_deleted)) = [''office'']
   \<and> connection_buttons (snd home_deleted) = [(False, True)]
   \<and> active_process (snd home_deleted) = Some 0
   \<and> exit_code (fst home_deleted) 0 = None
   \<and> spawn_args (trace (fst home_deleted)) =
        [[''chisel'', ''client'', url home, ''socks'']]
   \<and> map name (connections (snd office_moved)) = [''office'']
   \<and> connection_buttons (snd office_moved) = [(True, False)]
   \<and> active_connection_index (snd office_moved) = Some 1
   \<and> active_process (snd office_moved) = Some 0
   \<and> exit_code (fst office_moved) 0 = None
   \<and> spawn_args (trace (fst office_moved)) = [chisel_cmd office]"
  by (simp add: home_deleted_def office_moved_def office_run_def sample_defs op_defs split_eval
      Let_def)

end
